theory Spec2Isabelle
  imports Main "HOL-Library.Word"
begin

section \<open>Account and verification-token lifecycle\<close>

text \<open>
  A shallow embedding of the authentication service (\<open>authService\<close>), the two
  repositories it drives (\<open>userRepository\<close>, \<open>verificationTokenRepository\<close>), the token
  helpers of \<open>src/lib/tokens.ts\<close> and the validation schemas.

  Conventions of the model:
  \<^item> a JavaScript string is a \<open>string\<close> whose characters are the code units below 256;
  \<^item> a \<open>Date\<close> is its time value, an \<open>int\<close> of milliseconds since the epoch (the range
    limit of \<open>Date\<close> is not modelled);
  \<^item> the two tables are lists of rows in insertion order; the uniqueness constraints of
    the schema (\<open>User.id\<close>, \<open>User.email\<close>, \<open>VerificationToken.token\<close>) are enforced by
    the \<open>create\<close> operations, which fail as Prisma does (\<open>P2002\<close>);
  \<^item> what a call reads from outside the program is gathered in a record \<open>env\<close>: the
    clock, the \<open>cuid()\<close> of a new user row, the 32 random bytes of a token and the salt
    of the hash; one call reads the clock once;
  \<^item> \<open>hashPassword\<close> and \<open>verifyPassword\<close> (bcrypt wrappers of \<open>lib/password\<close>) are
    parameters of the operations that use them;
  \<^item> a thrown error is the \<open>Inl\<close> of a sum; every mutating operation returns the
    database it leaves behind, also when it throws.
\<close>

subsection \<open>Errors (src/lib/errors.ts)\<close>

datatype ErrorCode =
  VALIDATION_ERROR | AUTHENTICATION_ERROR | AUTHORIZATION_ERROR | NOT_FOUND | CONFLICT
  | INTERNAL_ERROR

definition INVALID_CREDENTIALS :: string where
  "INVALID_CREDENTIALS = ''auth.messages.invalidCredentials''"

definition EMAIL_ALREADY_EXISTS :: string where
  "EMAIL_ALREADY_EXISTS = ''auth.messages.emailAlreadyExists''"

definition EMAIL_ALREADY_VERIFIED :: string where
  "EMAIL_ALREADY_VERIFIED = ''auth.messages.emailAlreadyVerified''"

definition USER_NOT_FOUND :: string where
  "USER_NOT_FOUND = ''auth.messages.userNotFound''"

definition EMAIL_NOT_VERIFIED :: string where
  "EMAIL_NOT_VERIFIED = ''auth.messages.emailNotVerified''"

definition INVALID_TOKEN :: string where
  "INVALID_TOKEN = ''auth.messages.invalidToken''"

text \<open>
  What an operation can throw: an \<open>AppError\<close> with its code and message key, or the
  known request error of the Prisma client (\<open>P2002\<close>: unique constraint failed,
  \<open>P2025\<close>: record to update or delete not found).
\<close>

datatype PrismaCode = P2002 | P2025

datatype error = AppError ErrorCode string | PrismaClientKnownRequestError PrismaCode

subsection \<open>Strings\<close>

text \<open>\<open>String.prototype.toLowerCase\<close> on code units below 256: A-Z and the
  Latin-1 capitals (all but the multiplication sign) move up by 32.\<close>

definition lowerChar :: "char \<Rightarrow> char" where
  "lowerChar c =
     (let n = (of_char c :: nat)
      in if (65 \<le> n \<and> n \<le> 90) \<or> (192 \<le> n \<and> n \<le> 214) \<or> (216 \<le> n \<and> n \<le> 222)
         then char_of (n + 32) else c)"

definition toLowerCase :: "string \<Rightarrow> string" where
  "toLowerCase s = map lowerChar s"

text \<open>\<open>String.prototype.trim\<close>: white space and line terminators below 256 are
  TAB, LF, VT, FF, CR, SP and NBSP.\<close>

definition isWhiteSpace :: "char \<Rightarrow> bool" where
  "isWhiteSpace c = ((of_char c :: nat) \<in> {9, 10, 11, 12, 13, 32, 160})"

definition trim :: "string \<Rightarrow> string" where
  "trim s = rev (dropWhile isWhiteSpace (rev (dropWhile isWhiteSpace s)))"

subsection \<open>Token helpers (src/lib/tokens.ts)\<close>

record env =
  now :: int
  cuid :: string
  randomBytes :: "8 word list"
  salt :: string

definition hexDigit :: "nat \<Rightarrow> char" where
  "hexDigit n = ''0123456789abcdef'' ! (n mod 16)"

definition toHex :: "8 word list \<Rightarrow> string" where
  "toHex bs = concat (map (\<lambda>b. [hexDigit (unat b div 16), hexDigit (unat b mod 16)]) bs)"

text \<open>\<open>crypto.randomBytes(32).toString("hex")\<close>; the bytes come from the environment.\<close>

definition generateVerificationToken :: "env \<Rightarrow> string" where
  "generateVerificationToken e = toHex (randomBytes e)"

text \<open>\<open>new Date(Date.now() + hours * 60 * 60 * 1000)\<close>, the clock reading passed in.\<close>

definition generateTokenExpiry :: "int \<Rightarrow> int \<Rightarrow> int" where
  "generateTokenExpiry clock hours = clock + hours * 60 * 60 * 1000"

text \<open>\<open>new Date() > expiryDate\<close>.\<close>

definition isTokenExpired :: "int \<Rightarrow> int \<Rightarrow> bool" where
  "isTokenExpired clock expiryDate = (clock > expiryDate)"

subsection \<open>Validation schemas\<close>

text \<open>
  A zod string schema runs its checks and transformations in the order written and
  fails with the collected messages when a check added an issue. The format check of
  \<open>.email()\<close> is zod's own regular expression, a parameter \<open>isEmail\<close> here.
\<close>

record RegisterInput =
  name_r :: string
  email_r :: string
  password_r :: string

record LoginInput =
  email_l :: string
  password_l :: string

definition emailSchema :: "(string \<Rightarrow> bool) \<Rightarrow> string \<Rightarrow> string list + string" where
  "emailSchema isEmail raw =
     (if isEmail raw then Inr (trim (toLowerCase raw)) else Inl [''Invalid email address''])"

definition inRange :: "nat \<Rightarrow> nat \<Rightarrow> char \<Rightarrow> bool" where
  "inRange lo hi c = (lo \<le> of_char c \<and> (of_char c :: nat) \<le> hi)"

definition passwordSchema :: "string \<Rightarrow> string list + string" where
  "passwordSchema raw =
     (let issues =
        (if length raw < 8 then [''Password must be at least 8 characters''] else []) @
        (if list_ex (inRange 65 90) raw then []
         else [''Must contain at least one uppercase letter'']) @
        (if list_ex (inRange 97 122) raw then []
         else [''Must contain at least one lowercase letter'']) @
        (if list_ex (inRange 48 57) raw then [] else [''Must contain at least one number'']) @
        (if list_ex (\<lambda>c. \<not> (inRange 65 90 c \<or> inRange 97 122 c \<or> inRange 48 57 c)) raw then []
         else [''Must contain at least one special character''])
      in if issues = [] then Inr raw else Inl issues)"

definition nameSchema :: "string \<Rightarrow> string list + string" where
  "nameSchema raw =
     (if length raw < 2 then Inl [''Name must be at least 2 characters''] else Inr (trim raw))"

definition issuesOf :: "string list + 'a \<Rightarrow> string list" where
  "issuesOf r = (case r of Inl is \<Rightarrow> is | Inr _ \<Rightarrow> [])"

definition registerSchema ::
  "(string \<Rightarrow> bool) \<Rightarrow> RegisterInput \<Rightarrow> string list + RegisterInput" where
  "registerSchema isEmail raw =
     (case (nameSchema (name_r raw), emailSchema isEmail (email_r raw),
            passwordSchema (password_r raw)) of
        (Inr n, Inr e, Inr p) \<Rightarrow> Inr \<lparr>name_r = n, email_r = e, password_r = p\<rparr>
      | (rn, re, rp) \<Rightarrow> Inl (issuesOf rn @ issuesOf re @ issuesOf rp))"

definition loginSchema :: "(string \<Rightarrow> bool) \<Rightarrow> LoginInput \<Rightarrow> string list + LoginInput" where
  "loginSchema isEmail raw =
     (case (emailSchema isEmail (email_l raw),
            if length (password_l raw) < 1 then Inl [''Password is required'']
            else Inr (password_l raw)) of
        (Inr e, Inr p) \<Rightarrow> Inr \<lparr>email_l = e, password_l = p\<rparr>
      | (re, rp) \<Rightarrow> Inl (issuesOf re @ issuesOf rp))"

subsection \<open>Rows and the database\<close>

datatype UserRole = USER | ADMIN | MODERATOR

record User =
  id' :: string
  name :: "string option"
  email :: string
  emailVerified :: "int option"
  password :: "string option"
  image' :: "string option"
  role :: UserRole
  createdAt :: int
  updatedAt :: int

text \<open>A token row; its surrogate key \<open>id\<close> is never read by the program and is left out.\<close>

record VerificationToken =
  "identifier" :: string
  token :: string
  expires :: int

record db =
  users :: "User list"
  tokens :: "VerificationToken list"

subsection \<open>verificationTokenRepository\<close>

definition verificationTokenRepository_create ::
  "db \<Rightarrow> VerificationToken \<Rightarrow> error + (VerificationToken \<times> db)" where
  "verificationTokenRepository_create s data =
     (if list_ex (\<lambda>r. token r = token data) (tokens s)
      then Inl (PrismaClientKnownRequestError P2002)
      else Inr (data, s\<lparr>tokens := tokens s @ [data]\<rparr>))"

definition verificationTokenRepository_findByToken ::
  "db \<Rightarrow> string \<Rightarrow> string \<Rightarrow> VerificationToken option" where
  "verificationTokenRepository_findByToken s i t =
     find (\<lambda>r. identifier r = i \<and> token r = t) (tokens s)"

definition verificationTokenRepository_findByTokenValue ::
  "db \<Rightarrow> string \<Rightarrow> VerificationToken option" where
  "verificationTokenRepository_findByTokenValue s t = find (\<lambda>r. token r = t) (tokens s)"

definition verificationTokenRepository_delete :: "db \<Rightarrow> string \<Rightarrow> string \<Rightarrow> error + db" where
  "verificationTokenRepository_delete s i t =
     (if list_ex (\<lambda>r. identifier r = i \<and> token r = t) (tokens s)
      then Inr (s\<lparr>tokens := filter (\<lambda>r. \<not> (identifier r = i \<and> token r = t)) (tokens s)\<rparr>)
      else Inl (PrismaClientKnownRequestError P2025))"

definition verificationTokenRepository_deleteByIdentifier :: "db \<Rightarrow> string \<Rightarrow> db" where
  "verificationTokenRepository_deleteByIdentifier s i =
     s\<lparr>tokens := filter (\<lambda>r. identifier r \<noteq> i) (tokens s)\<rparr>"

definition verificationTokenRepository_deleteExpired :: "int \<Rightarrow> db \<Rightarrow> db" where
  "verificationTokenRepository_deleteExpired clock s =
     s\<lparr>tokens := filter (\<lambda>r. \<not> expires r < clock) (tokens s)\<rparr>"

subsection \<open>userRepository\<close>

text \<open>\<open>prisma.user.create\<close>: the schema's defaults fill \<open>id\<close> (\<open>cuid()\<close>),
  \<open>emailVerified\<close>, \<open>image\<close> (null), \<open>createdAt\<close> (\<open>now()\<close>) and \<open>updatedAt\<close>;
  \<open>data.role || "USER"\<close> is the role.\<close>

definition userRepository_create ::
  "env \<Rightarrow> db \<Rightarrow> string \<Rightarrow> string \<Rightarrow> string \<Rightarrow> UserRole option \<Rightarrow> error + (User \<times> db)" where
  "userRepository_create e s em nm pw rl =
     (if list_ex (\<lambda>u. id' u = cuid e \<or> email u = em) (users s)
      then Inl (PrismaClientKnownRequestError P2002)
      else let user = \<lparr>id' = cuid e, name = Some nm, email = em, emailVerified = None,
                        password = Some pw, image' = None,
                        role = (case rl of None \<Rightarrow> USER | Some r \<Rightarrow> r),
                        createdAt = now e, updatedAt = now e\<rparr>
           in Inr (user, s\<lparr>users := users s @ [user]\<rparr>))"

definition userRepository_findById :: "db \<Rightarrow> string \<Rightarrow> User option" where
  "userRepository_findById s i = find (\<lambda>u. id' u = i) (users s)"

definition userRepository_findByEmail :: "db \<Rightarrow> string \<Rightarrow> User option" where
  "userRepository_findByEmail s em = find (\<lambda>u. email u = toLowerCase em) (users s)"

definition userRepository_emailExists :: "db \<Rightarrow> string \<Rightarrow> bool" where
  "userRepository_emailExists s em = (find (\<lambda>u. email u = toLowerCase em) (users s) \<noteq> None)"

text \<open>\<open>prisma.user.update({ where: { id }, data: { emailVerified: new Date() } })\<close>:
  the row gets the clock reading in \<open>emailVerified\<close> and, by \<open>@updatedAt\<close>, in
  \<open>updatedAt\<close>; a missing row is \<open>P2025\<close>.\<close>

definition markVerified :: "env \<Rightarrow> User \<Rightarrow> User" where
  "markVerified e x = x\<lparr>emailVerified := Some (now e), updatedAt := now e\<rparr>"

definition userRepository_verifyEmail :: "env \<Rightarrow> db \<Rightarrow> string \<Rightarrow> error + (User \<times> db)" where
  "userRepository_verifyEmail e s i =
     (case find (\<lambda>u. id' u = i) (users s) of
        None \<Rightarrow> Inl (PrismaClientKnownRequestError P2025)
      | Some u \<Rightarrow>
          Inr (markVerified e u,
               s\<lparr>users := map (\<lambda>x. if id' x = i then markVerified e x else x) (users s)\<rparr>))"

subsection \<open>authService\<close>

text \<open>A JavaScript object is the list of its own properties, in creation order.\<close>

datatype jsval = JNull | JString string | JDate int | JRole UserRole

type_synonym UserDTO = "(string \<times> jsval) list"

definition nullable :: "('a \<Rightarrow> jsval) \<Rightarrow> 'a option \<Rightarrow> jsval" where
  "nullable f v = (case v of None \<Rightarrow> JNull | Some x \<Rightarrow> f x)"

definition toUserDTO :: "User \<Rightarrow> UserDTO" where
  "toUserDTO user =
     [(''id'', JString (id' user)),
      (''name'', nullable JString (name user)),
      (''email'', JString (email user)),
      (''emailVerified'', nullable JDate (emailVerified user)),
      (''image'', nullable JString (image' user)),
      (''role'', JRole (role user)),
      (''createdAt'', JDate (createdAt user)),
      (''updatedAt'', JDate (updatedAt user))]"

record RegisterResult =
  user :: UserDTO
  verificationToken :: string

definition register ::
  "(string \<Rightarrow> string \<Rightarrow> string) \<Rightarrow> env \<Rightarrow> db \<Rightarrow> RegisterInput \<Rightarrow> (error + RegisterResult) \<times> db"
  where
  "register hashPassword e s data =
     (if userRepository_emailExists s (email_r data)
      then (Inl (AppError CONFLICT EMAIL_ALREADY_EXISTS), s)
      else
        let hashedPassword = hashPassword (salt e) (password_r data)
        in case userRepository_create e s (email_r data) (name_r data) hashedPassword None of
             Inl err \<Rightarrow> (Inl err, s)
           | Inr (usr, s1) \<Rightarrow>
               let tok = generateVerificationToken e;
                   exp = generateTokenExpiry (now e) 24
               in case verificationTokenRepository_create s1
                         \<lparr>identifier = email usr, token = tok, expires = exp\<rparr> of
                    Inl err \<Rightarrow> (Inl err, s1)
                  | Inr (_, s2) \<Rightarrow>
                      (Inr \<lparr>user = toUserDTO usr, verificationToken = tok\<rparr>, s2))"

text \<open>\<open>!user.password\<close> holds for \<open>null\<close> and for the empty string; a \<open>Date\<close> is
  always truthy, so \<open>!user.emailVerified\<close> holds for \<open>null\<close> only.\<close>

definition login :: "(string \<Rightarrow> string \<Rightarrow> bool) \<Rightarrow> db \<Rightarrow> LoginInput \<Rightarrow> error + UserDTO" where
  "login verifyPassword s data =
     (case userRepository_findByEmail s (email_l data) of
        None \<Rightarrow> Inl (AppError AUTHENTICATION_ERROR INVALID_CREDENTIALS)
      | Some usr \<Rightarrow>
          (case password usr of
             None \<Rightarrow> Inl (AppError AUTHENTICATION_ERROR INVALID_CREDENTIALS)
           | Some h \<Rightarrow>
               if h = [] then Inl (AppError AUTHENTICATION_ERROR INVALID_CREDENTIALS)
               else if \<not> verifyPassword (password_l data) h
                 then Inl (AppError AUTHENTICATION_ERROR INVALID_CREDENTIALS)
               else if emailVerified usr = None
                 then Inl (AppError AUTHENTICATION_ERROR EMAIL_NOT_VERIFIED)
               else Inr (toUserDTO usr)))"

definition verifyEmail :: "env \<Rightarrow> db \<Rightarrow> string \<Rightarrow> (error + UserDTO) \<times> db" where
  "verifyEmail e s tok =
     (case verificationTokenRepository_findByTokenValue s tok of
        None \<Rightarrow> (Inl (AppError AUTHENTICATION_ERROR INVALID_TOKEN), s)
      | Some vt \<Rightarrow>
          if isTokenExpired (now e) (expires vt)
          then (Inl (AppError AUTHENTICATION_ERROR INVALID_TOKEN),
                verificationTokenRepository_deleteByIdentifier s (identifier vt))
          else
            (case userRepository_findByEmail s (identifier vt) of
               None \<Rightarrow> (Inl (AppError NOT_FOUND USER_NOT_FOUND), s)
             | Some usr \<Rightarrow>
                 (case userRepository_verifyEmail e s (id' usr) of
                    Inl err \<Rightarrow> (Inl err, s)
                  | Inr (verifiedUser, s1) \<Rightarrow>
                      (case verificationTokenRepository_delete s1 (identifier vt) (token vt) of
                         Inl err \<Rightarrow> (Inl err, s1)
                       | Inr s2 \<Rightarrow> (Inr (toUserDTO verifiedUser), s2)))))"

definition resendVerification :: "env \<Rightarrow> db \<Rightarrow> string \<Rightarrow> (error + string) \<times> db" where
  "resendVerification e s em =
     (case userRepository_findByEmail s em of
        None \<Rightarrow> (Inl (AppError NOT_FOUND USER_NOT_FOUND), s)
      | Some usr \<Rightarrow>
          if emailVerified usr \<noteq> None
          then (Inl (AppError VALIDATION_ERROR EMAIL_ALREADY_VERIFIED), s)
          else
            let s1 = verificationTokenRepository_deleteByIdentifier s em;
                tok = generateVerificationToken e;
                exp = generateTokenExpiry (now e) 24
            in case verificationTokenRepository_create s1
                      \<lparr>identifier = em, token = tok, expires = exp\<rparr> of
                 Inl err \<Rightarrow> (Inl err, s1)
               | Inr (_, s2) \<Rightarrow> (Inr tok, s2))"

definition getUserById :: "db \<Rightarrow> string \<Rightarrow> UserDTO option" where
  "getUserById s i = map_option toUserDTO (userRepository_findById s i)"

definition getUserByEmail :: "db \<Rightarrow> string \<Rightarrow> UserDTO option" where
  "getUserByEmail s em = map_option toUserDTO (userRepository_findByEmail s em)"

subsection \<open>Constraints, invariant and reachable states\<close>

text \<open>The uniqueness constraints of the schema: \<open>User.id\<close>, \<open>User.email\<close> and
  \<open>VerificationToken.token\<close>.\<close>

definition dbConstraints :: "db \<Rightarrow> bool" where
  "dbConstraints s =
     (distinct (map id' (users s)) \<and> distinct (map email (users s)) \<and>
      distinct (map token (tokens s)))"

text \<open>Every token row refers to an account: a user row carries the token's identifier,
  as written or in lower case.\<close>

definition tokensHaveAccount :: "db \<Rightarrow> bool" where
  "tokensHaveAccount s =
     list_all (\<lambda>r. list_ex (\<lambda>u. email u = identifier r \<or> email u = toLowerCase (identifier r))
                        (users s))
       (tokens s)"

text \<open>
  The states the server actions produce from the empty database: \<open>registerAction\<close>
  parses its input with \<open>registerSchema\<close> and calls \<open>register\<close>, \<open>verifyEmailAction\<close>
  parses with \<open>verifyEmailSchema\<close> (a token of at least one character),
  \<open>resendVerificationAction\<close> passes its string on as it is. Every environment is
  allowed at every step.
\<close>

inductive reachable :: "(string \<Rightarrow> bool) \<Rightarrow> (string \<Rightarrow> string \<Rightarrow> string) \<Rightarrow> db \<Rightarrow> bool"
  for isEmail :: "string \<Rightarrow> bool" and hashPassword :: "string \<Rightarrow> string \<Rightarrow> string" where
  initial: "reachable isEmail hashPassword \<lparr>users = [], tokens = []\<rparr>"
| registered:
    "reachable isEmail hashPassword s \<Longrightarrow> registerSchema isEmail raw = Inr data \<Longrightarrow>
     reachable isEmail hashPassword (snd (register hashPassword e s data))"
| verified:
    "reachable isEmail hashPassword s \<Longrightarrow> 1 \<le> length tok \<Longrightarrow>
     reachable isEmail hashPassword (snd (verifyEmail e s tok))"
| resent:
    "reachable isEmail hashPassword s \<Longrightarrow>
     reachable isEmail hashPassword (snd (resendVerification e s em))"

text \<open>The own property names of an object (\<open>Object.keys\<close>) and the value of one.\<close>

definition keys :: "UserDTO \<Rightarrow> string list" where
  "keys obj = map fst obj"

definition field :: "UserDTO \<Rightarrow> string \<Rightarrow> jsval option" where
  "field obj k = map_of obj k"

subsection \<open>A scenario\<close>

text \<open>
  The scenario of the specification: Alice registers with \<open>a@example.com\<close> and the
  secret \<open>Sup3r$ecret\<close>. A test for an at sign stands in for zod's email check;
  prefixing the salt and comparing the suffix stand in for bcrypt. The token of a call
  is the hexadecimal form of its 32 random bytes.
\<close>

definition exIsEmail :: "string \<Rightarrow> bool" where
  "exIsEmail raw = list_ex (\<lambda>c. c = CHR ''@'') raw"

definition exHashPassword :: "string \<Rightarrow> string \<Rightarrow> string" where
  "exHashPassword sl pw = sl @ pw"

definition exVerifyPassword :: "string \<Rightarrow> string \<Rightarrow> bool" where
  "exVerifyPassword pw h = (length pw \<le> length h \<and> drop (length h - length pw) h = pw)"

definition exDb0 :: db where
  "exDb0 = \<lparr>users = [], tokens = []\<rparr>"

definition exRaw :: RegisterInput where
  "exRaw = \<lparr>name_r = ''Alice'', email_r = ''a@example.com'', password_r = ''Sup3r$ecret''\<rparr>"

definition exEnv0 :: env where
  "exEnv0 = \<lparr>now = 1000, cuid = ''u1'', randomBytes = replicate 32 1, salt = ''s1''\<rparr>"

definition exToken1 :: string where
  "exToken1 = concat (replicate 32 ''01'')"

definition exUser1 :: "(string \<Rightarrow> string \<Rightarrow> string) \<Rightarrow> User" where
  "exUser1 hashPassword =
     \<lparr>id' = ''u1'', name = Some ''Alice'', email = ''a@example.com'', emailVerified = None,
      password = Some (hashPassword ''s1'' ''Sup3r$ecret''), image' = None, role = USER,
      createdAt = 1000, updatedAt = 1000\<rparr>"

definition exRow1 :: VerificationToken where
  "exRow1 = \<lparr>identifier = ''a@example.com'', token = exToken1, expires = 86401000\<rparr>"

text \<open>After the registration at time 1000.\<close>

definition exDb1 :: "(string \<Rightarrow> string \<Rightarrow> string) \<Rightarrow> db" where
  "exDb1 hashPassword = \<lparr>users = [exUser1 hashPassword], tokens = [exRow1]\<rparr>"

text \<open>A resend at time 2000, the address typed with capitals.\<close>

definition exEnv1 :: env where
  "exEnv1 = \<lparr>now = 2000, cuid = ''u2'', randomBytes = replicate 32 2, salt = ''s2''\<rparr>"

definition exToken2 :: string where
  "exToken2 = concat (replicate 32 ''02'')"

definition exRow2 :: VerificationToken where
  "exRow2 = \<lparr>identifier = ''A@Example.com'', token = exToken2, expires = 86402000\<rparr>"

definition exDb2 :: "(string \<Rightarrow> string \<Rightarrow> string) \<Rightarrow> db" where
  "exDb2 hashPassword = \<lparr>users = [exUser1 hashPassword], tokens = [exRow1, exRow2]\<rparr>"

text \<open>The first token is consumed at time 3000; the second is still stored.\<close>

definition exEnv2 :: env where
  "exEnv2 = \<lparr>now = 3000, cuid = ''u3'', randomBytes = replicate 32 3, salt = ''s3''\<rparr>"

definition exDb3 :: "(string \<Rightarrow> string \<Rightarrow> string) \<Rightarrow> db" where
  "exDb3 hashPassword =
     \<lparr>users = [markVerified exEnv2 (exUser1 hashPassword)], tokens = [exRow2]\<rparr>"

definition exEnv3 :: env where
  "exEnv3 = \<lparr>now = 4000, cuid = ''u4'', randomBytes = replicate 32 4, salt = ''s4''\<rparr>"

text \<open>One millisecond after the expiry of the first token.\<close>

definition exEnvLate :: env where
  "exEnvLate = \<lparr>now = 86401001, cuid = ''u5'', randomBytes = replicate 32 5, salt = ''s5''\<rparr>"

text \<open>The database of the first registration once its token is consumed at time 3000.\<close>

definition exDb1v :: "(string \<Rightarrow> string \<Rightarrow> string) \<Rightarrow> db" where
  "exDb1v hashPassword = \<lparr>users = [markVerified exEnv2 (exUser1 hashPassword)], tokens = []\<rparr>"

text \<open>An account created by an external identity provider: no password.\<close>

definition exDbOAuth :: db where
  "exDbOAuth =
     \<lparr>users = [\<lparr>id' = ''u9'', name = Some ''Bob'', email = ''bob@example.com'',
                 emailVerified = Some 500, password = None, image' = None, role = USER,
                 createdAt = 500, updatedAt = 500\<rparr>],
      tokens = []\<rparr>"

text \<open>Login and registration input of the scenario, with capitals in the address.\<close>

definition exLogin :: LoginInput where
  "exLogin = \<lparr>email_l = ''A@Example.com'', password_l = ''Sup3r$ecret''\<rparr>"

definition exRegisterAgain :: RegisterInput where
  "exRegisterAgain =
     \<lparr>name_r = ''Alice'', email_r = ''A@EXAMPLE.COM'', password_r = ''Sup3r$ecret''\<rparr>"

section \<open>Properties\<close>

subsection \<open>Strings and schemas\<close>

lemma lowerChar_idem: "lowerChar (lowerChar c) = lowerChar c"
  unfolding lowerChar_def Let_def by (auto simp: of_char_of)

lemma toLowerCase_idem: "toLowerCase (toLowerCase s) = toLowerCase s"
  by (simp add: toLowerCase_def lowerChar_idem)

lemma toLowerCase_fixed_iff: "toLowerCase s = s \<longleftrightarrow> (\<forall>c\<in>set s. lowerChar c = c)"
  unfolding toLowerCase_def by (induction s) auto

lemma set_trim: "set (trim s) \<subseteq> set s"
  unfolding trim_def
  by (metis set_dropWhileD set_rev subsetI)

lemma toLowerCase_trim: "toLowerCase (trim (toLowerCase s)) = trim (toLowerCase s)"
proof -
  have "\<forall>c\<in>set (toLowerCase s). lowerChar c = c"
    by (auto simp: toLowerCase_def lowerChar_idem)
  then have "\<forall>c\<in>set (trim (toLowerCase s)). lowerChar c = c"
    using set_trim by blast
  then show ?thesis by (simp add: toLowerCase_fixed_iff)
qed

lemma emailSchema_normalized: "emailSchema isEmail raw = Inr em \<Longrightarrow> toLowerCase em = em"
  by (auto simp: emailSchema_def toLowerCase_trim split: if_splits)

lemma registerSchema_normalized:
  "registerSchema isEmail raw = Inr data \<Longrightarrow> toLowerCase (email_r data) = email_r data"
  by (auto simp: registerSchema_def split: sum.splits dest: emailSchema_normalized)

lemma keys_toUserDTO:
  "keys (toUserDTO u) =
     [''id'', ''name'', ''email'', ''emailVerified'', ''image'', ''role'', ''createdAt'',
      ''updatedAt'']"
  by (simp add: keys_def toUserDTO_def)

lemma field_emailVerified:
  "field (toUserDTO u) ''emailVerified'' = Some (nullable JDate (emailVerified u))"
  by (simp add: field_def toUserDTO_def)

subsection \<open>Lists\<close>

lemma find_append_new:
  "\<not> list_ex P xs \<Longrightarrow> P x \<Longrightarrow> find P (xs @ [x]) = Some x"
  by (induction xs) auto

lemma find_map_preserving:
  "(\<And>x. P (g x) = P x) \<Longrightarrow> find P (map g xs) = map_option g (find P xs)"
  by (induction xs) auto

lemma find_Some_mem: "find P xs = Some x \<Longrightarrow> x \<in> set xs \<and> P x"
  by (induction xs) (auto split: if_splits)

lemma find_mem_not_None: "x \<in> set xs \<Longrightarrow> P x \<Longrightarrow> find P xs \<noteq> None"
  by (auto simp: find_None_iff)

lemma find_distinct_key:
  "distinct (map f xs) \<Longrightarrow> x \<in> set xs \<Longrightarrow> find (\<lambda>r. f r = f x) xs = Some x"
  by (induction xs) (auto simp: image_iff)

subsection \<open>The scenario, evaluated\<close>

lemma ex_schema: "isEmail ''a@example.com'' \<Longrightarrow> registerSchema isEmail exRaw = Inr exRaw"
proof -
  assume a: "isEmail ''a@example.com''"
  have n: "nameSchema ''Alice'' = Inr ''Alice''" by code_simp
  have p: "passwordSchema ''Sup3r$ecret'' = Inr ''Sup3r$ecret''" by code_simp
  have t: "trim (toLowerCase ''a@example.com'') = ''a@example.com''" by code_simp
  show ?thesis
    using a by (simp add: registerSchema_def emailSchema_def exRaw_def n p t)
qed

lemma ex_register:
  "register hashPassword exEnv0 exDb0 exRaw =
     (Inr \<lparr>user = toUserDTO (exUser1 hashPassword), verificationToken = exToken1\<rparr>,
      exDb1 hashPassword)"
  by code_simp

lemma ex_resend:
  "resendVerification exEnv1 (exDb1 hashPassword) ''A@Example.com'' =
     (Inr exToken2, exDb2 hashPassword)"
  by code_simp

lemma ex_verify_first:
  "verifyEmail exEnv2 (exDb2 hashPassword) exToken1 =
     (Inr (toUserDTO (markVerified exEnv2 (exUser1 hashPassword))), exDb3 hashPassword)"
  by code_simp

lemma ex_reachable:
  assumes "isEmail ''a@example.com''"
  shows "reachable isEmail hashPassword (exDb3 hashPassword)"
proof -
  have "reachable isEmail hashPassword exDb0"
    unfolding exDb0_def by (rule reachable.initial)
  from reachable.registered [OF this ex_schema [of isEmail, OF assms], of exEnv0]
  have "reachable isEmail hashPassword (exDb1 hashPassword)"
    by (simp add: ex_register)
  from reachable.resent [OF this, of exEnv1 "''A@Example.com''"]
  have "reachable isEmail hashPassword (exDb2 hashPassword)"
    by (simp add: ex_resend)
  moreover have "1 \<le> length exToken1" by code_simp
  ultimately have "reachable isEmail hashPassword (snd (verifyEmail exEnv2 (exDb2 hashPassword) exToken1))"
    by (rule reachable.verified)
  then show ?thesis by (simp add: ex_verify_first)
qed

subsection \<open>Token expiry\<close>

text \<open>
  C10. \<open>isTokenExpired\<close> is true exactly when the clock is strictly after the expiry
  date. Hence, for every clock value, the expiry computed by \<open>generateTokenExpiry\<close> with
  24 hours is not expired at that same clock value, and is expired 24 hours and one
  second later.
\<close>

theorem C10_expiry_round_trip:
  "isTokenExpired clock expiry = (expiry < clock) \<and>
   \<not> isTokenExpired clock (generateTokenExpiry clock 24) \<and>
   isTokenExpired (clock + (24 * 60 * 60 + 1) * 1000) (generateTokenExpiry clock 24)"
  by (simp add: isTokenExpired_def generateTokenExpiry_def)

subsection \<open>login\<close>

text \<open>
  C4. For every login call, each of the three failure causes (no user row has the
  lower-cased email; the user found has no password hash; the password does not verify
  against the stored hash) gives the same error, the \<open>AppError\<close> with code
  \<open>AUTHENTICATION_ERROR\<close> and message \<open>INVALID_CREDENTIALS\<close>.
\<close>

theorem C4_login_invalid_credentials:
  assumes "toLowerCase (email_l data) \<notin> email ` set (users s) \<or>
           (\<exists>u. userRepository_findByEmail s (email_l data) = Some u \<and> password u = None) \<or>
           (\<exists>u h. userRepository_findByEmail s (email_l data) = Some u \<and> password u = Some h \<and>
                  \<not> verifyPassword (password_l data) h)"
  shows "login verifyPassword s data = Inl (AppError AUTHENTICATION_ERROR INVALID_CREDENTIALS)"
proof -
  have none: "userRepository_findByEmail s (email_l data) = None"
    if "toLowerCase (email_l data) \<notin> email ` set (users s)"
    unfolding userRepository_findByEmail_def find_None_iff using that by (metis imageI)
  from assms show ?thesis
    by (auto simp: login_def dest: none)
qed

theorem C4_login_invalid_credentials_witness:
  "toLowerCase (email_l \<lparr>email_l = ''nobody@example.com'', password_l = ''Sup3r$ecret''\<rparr>)
     \<notin> email ` set (users (exDb1 exHashPassword)) \<and>
   login exVerifyPassword (exDb1 exHashPassword)
     \<lparr>email_l = ''nobody@example.com'', password_l = ''Sup3r$ecret''\<rparr> =
     Inl (AppError AUTHENTICATION_ERROR INVALID_CREDENTIALS) \<and>
   (\<exists>u. userRepository_findByEmail exDbOAuth
           (email_l \<lparr>email_l = ''Bob@Example.com'', password_l = ''Sup3r$ecret''\<rparr>) = Some u \<and>
        password u = None) \<and>
   login exVerifyPassword exDbOAuth \<lparr>email_l = ''Bob@Example.com'', password_l = ''Sup3r$ecret''\<rparr> =
     Inl (AppError AUTHENTICATION_ERROR INVALID_CREDENTIALS) \<and>
   (\<exists>u h. userRepository_findByEmail (exDb1 exHashPassword)
             (email_l \<lparr>email_l = ''a@example.com'', password_l = ''wrong''\<rparr>) = Some u \<and>
          password u = Some h \<and>
          \<not> exVerifyPassword (password_l \<lparr>email_l = ''a@example.com'', password_l = ''wrong''\<rparr>) h) \<and>
   login exVerifyPassword (exDb1 exHashPassword)
     \<lparr>email_l = ''a@example.com'', password_l = ''wrong''\<rparr> =
     Inl (AppError AUTHENTICATION_ERROR INVALID_CREDENTIALS)"
proof -
  let ?d1 = "\<lparr>email_l = ''nobody@example.com'', password_l = ''Sup3r$ecret''\<rparr>"
  let ?d2 = "\<lparr>email_l = ''Bob@Example.com'', password_l = ''Sup3r$ecret''\<rparr>"
  let ?d3 = "\<lparr>email_l = ''a@example.com'', password_l = ''wrong''\<rparr>"
  have a: "toLowerCase (email_l ?d1) \<notin> email ` set (users (exDb1 exHashPassword))"
    by code_simp
  have b1: "userRepository_findByEmail exDbOAuth (email_l ?d2) = Some (hd (users exDbOAuth))"
    by code_simp
  have b2: "password (hd (users exDbOAuth)) = None"
    by code_simp
  have b: "\<exists>u. userRepository_findByEmail exDbOAuth (email_l ?d2) = Some u \<and> password u = None"
    using b1 b2 by blast
  have c1: "userRepository_findByEmail (exDb1 exHashPassword) (email_l ?d3) =
              Some (exUser1 exHashPassword)"
    by code_simp
  have c2: "password (exUser1 exHashPassword) = Some ''s1Sup3r$ecret''"
    by code_simp
  have c3: "\<not> exVerifyPassword (password_l ?d3) ''s1Sup3r$ecret''"
    by code_simp
  have c: "\<exists>u h. userRepository_findByEmail (exDb1 exHashPassword) (email_l ?d3) = Some u \<and>
          password u = Some h \<and> \<not> exVerifyPassword (password_l ?d3) h"
    using c1 c2 c3 by blast
  note r1 = C4_login_invalid_credentials
    [where data = ?d1 and s = "exDb1 exHashPassword" and verifyPassword = exVerifyPassword,
     OF disjI1, OF a]
  note r2 = C4_login_invalid_credentials
    [where data = ?d2 and s = exDbOAuth and verifyPassword = exVerifyPassword,
     OF disjI2, OF disjI1, OF b]
  note r3 = C4_login_invalid_credentials
    [where data = ?d3 and s = "exDb1 exHashPassword" and verifyPassword = exVerifyPassword,
     OF disjI2, OF disjI2, OF c]
  from a b c r1 r2 r3 show ?thesis by blast
qed

lemma login_success:
  assumes "userRepository_findByEmail s (email_l data) = Some u"
    and "password u = Some h" and "h \<noteq> []" and "verifyPassword (password_l data) h"
    and "emailVerified u \<noteq> None"
  shows "login verifyPassword s data = Inr (toUserDTO u)"
  using assms by (simp add: login_def)

subsection \<open>register\<close>

text \<open>
  C2. When a user row already carries the lower-cased form of the email of a
  registration, whatever the letter case of that email, \<open>register\<close> fails with the
  \<open>CONFLICT\<close> error \<open>EMAIL_ALREADY_EXISTS\<close> and leaves the database as it was: no
  second user row and no token row is created.
\<close>

theorem C2_register_conflict:
  assumes "u \<in> set (users s)" and "email u = toLowerCase (email_r data)"
  shows "register hashPassword e s data = (Inl (AppError CONFLICT EMAIL_ALREADY_EXISTS), s)"
proof -
  have "userRepository_emailExists s (email_r data)"
    using assms by (auto simp: userRepository_emailExists_def find_None_iff)
  then show ?thesis by (simp add: register_def)
qed

theorem C2_register_conflict_witness:
  "exUser1 exHashPassword \<in> set (users (exDb1 exHashPassword)) \<and>
   email (exUser1 exHashPassword) = toLowerCase (email_r exRegisterAgain) \<and>
   register exHashPassword exEnv1 (exDb1 exHashPassword) exRegisterAgain =
     (Inl (AppError CONFLICT EMAIL_ALREADY_EXISTS), exDb1 exHashPassword)"
proof -
  have a: "exUser1 exHashPassword \<in> set (users (exDb1 exHashPassword))"
    by (simp add: exDb1_def)
  have b: "email (exUser1 exHashPassword) = toLowerCase (email_r exRegisterAgain)"
    by code_simp
  from C2_register_conflict [OF a b, of exHashPassword exEnv1] a b
  show ?thesis by blast
qed

lemma register_success:
  assumes "register hashPassword e s data = (Inr res, s1)"
  shows "\<not> userRepository_emailExists s (email_r data) \<and>
         \<not> list_ex (\<lambda>u. id' u = cuid e \<or> email u = email_r data) (users s) \<and>
         \<not> list_ex (\<lambda>r. token r = generateVerificationToken e) (tokens s) \<and>
         (let usr = \<lparr>id' = cuid e, name = Some (name_r data), email = email_r data,
                     emailVerified = None,
                     password = Some (hashPassword (salt e) (password_r data)), image' = None,
                     role = USER, createdAt = now e, updatedAt = now e\<rparr>
          in res = \<lparr>user = toUserDTO usr, verificationToken = generateVerificationToken e\<rparr> \<and>
             s1 = \<lparr>users = users s @ [usr],
                   tokens = tokens s @ [\<lparr>identifier = email_r data,
                                           token = generateVerificationToken e,
                                           expires = generateTokenExpiry (now e) 24\<rparr>]\<rparr>)"
  using assms
  by (auto simp: register_def userRepository_create_def verificationTokenRepository_create_def
      Let_def split: if_splits)

lemma register_fresh_success:
  assumes norm: "toLowerCase (email_r data) = email_r data"
    and fresh: "\<not> userRepository_emailExists s (email_r data)"
    and rid: "cuid e \<notin> id' ` set (users s)"
    and rtok: "generateVerificationToken e \<notin> token ` set (tokens s)"
  shows "register hashPassword e s data =
           (Inr \<lparr>user = toUserDTO
                   \<lparr>id' = cuid e, name = Some (name_r data), email = email_r data,
                     emailVerified = None,
                     password = Some (hashPassword (salt e) (password_r data)),
                     image' = None, role = USER, createdAt = now e, updatedAt = now e\<rparr>,
                 verificationToken = generateVerificationToken e\<rparr>,
            s\<lparr>users := users s @
                 [\<lparr>id' = cuid e, name = Some (name_r data), email = email_r data,
                   emailVerified = None,
                   password = Some (hashPassword (salt e) (password_r data)),
                   image' = None, role = USER, createdAt = now e, updatedAt = now e\<rparr>],
              tokens := tokens s @ [\<lparr>identifier = email_r data,
                                      token = generateVerificationToken e,
                                      expires = generateTokenExpiry (now e) 24\<rparr>]\<rparr>)"
proof -
  from fresh have "\<forall>u\<in>set (users s). email u \<noteq> email_r data"
    by (simp add: userRepository_emailExists_def find_None_iff norm)
  moreover from rid have "\<forall>u\<in>set (users s). id' u \<noteq> cuid e"
    by (metis imageI)
  ultimately have a: "\<not> list_ex (\<lambda>u. id' u = cuid e \<or> email u = email_r data) (users s)"
    by (simp add: list_ex_iff)
  from rtok have "\<forall>r\<in>set (tokens s). token r \<noteq> generateVerificationToken e"
    by (metis imageI)
  then have b: "\<not> list_ex (\<lambda>r. token r = generateVerificationToken e) (tokens s)"
    by (simp add: list_ex_iff)
  show ?thesis
    using fresh a b
    by (simp add: register_def userRepository_create_def verificationTokenRepository_create_def
        Let_def)
qed

subsection \<open>verifyEmail and resendVerification\<close>

lemma verifyEmail_success:
  assumes tok: "verificationTokenRepository_findByTokenValue s tok = Some vt"
    and live: "\<not> isTokenExpired (now e) (expires vt)"
    and acc: "userRepository_findByEmail s (identifier vt) = Some u"
  shows "\<exists>u0. find (\<lambda>x. id' x = id' u) (users s) = Some u0 \<and>
           verifyEmail e s tok =
             (Inr (toUserDTO (markVerified e u0)),
              s\<lparr>users := map (\<lambda>x. if id' x = id' u then markVerified e x else x) (users s),
                tokens := filter (\<lambda>r. \<not> (identifier r = identifier vt \<and> token r = token vt))
                            (tokens s)\<rparr>)"
proof -
  from acc have "u \<in> set (users s)"
    by (auto simp: userRepository_findByEmail_def dest: find_Some_mem)
  then have "find (\<lambda>x. id' x = id' u) (users s) \<noteq> None"
    by (rule find_mem_not_None) simp
  then obtain u0 where u0: "find (\<lambda>x. id' x = id' u) (users s) = Some u0" by auto
  from tok have "vt \<in> set (tokens s)"
    by (auto simp: verificationTokenRepository_findByTokenValue_def dest: find_Some_mem)
  then have ex: "list_ex (\<lambda>r. identifier r = identifier vt \<and> token r = token vt) (tokens s)"
    by (auto simp: list_ex_iff)
  have "verifyEmail e s tok =
          (Inr (toUserDTO (markVerified e u0)),
           s\<lparr>users := map (\<lambda>x. if id' x = id' u then markVerified e x else x) (users s),
             tokens := filter (\<lambda>r. \<not> (identifier r = identifier vt \<and> token r = token vt))
                         (tokens s)\<rparr>)"
    using tok live acc u0 ex
    by (simp add: verifyEmail_def userRepository_verifyEmail_def
        verificationTokenRepository_delete_def)
  with u0 show ?thesis by blast
qed

lemma findByEmail_after_verify:
  "userRepository_findByEmail
     (s\<lparr>users := map (\<lambda>x. if id' x = i then markVerified e x else x) (users s), tokens := ts\<rparr>) em =
   map_option (\<lambda>x. if id' x = i then markVerified e x else x) (userRepository_findByEmail s em)"
  unfolding userRepository_findByEmail_def
  by (simp add: find_map_preserving markVerified_def)

lemma verifyEmail_Inr_live:
  assumes "verifyEmail e s tok = (Inr dto, s')"
    and "verificationTokenRepository_findByTokenValue s tok = Some vt"
  shows "\<not> isTokenExpired (now e) (expires vt)"
  using assms by (auto simp: verifyEmail_def split: if_splits)

lemma findByTokenValue_absent:
  "tok \<notin> token ` set (tokens s) \<Longrightarrow> verificationTokenRepository_findByTokenValue s tok = None"
  unfolding verificationTokenRepository_findByTokenValue_def find_None_iff by (metis imageI)

lemma verifyEmail_unknown_token:
  "verificationTokenRepository_findByTokenValue s tok = None \<Longrightarrow>
   verifyEmail e s tok = (Inl (AppError AUTHENTICATION_ERROR INVALID_TOKEN), s)"
  by (simp add: verifyEmail_def)

text \<open>A live token whose row is the only one with its value is consumed exactly once.\<close>

lemma verifyEmail_single_use:
  assumes tok: "verificationTokenRepository_findByTokenValue s1 tok = Some vt"
    and only: "\<forall>r\<in>set (tokens s1). token r = tok \<longrightarrow> r = vt"
    and live: "\<not> isTokenExpired (now e1) (expires vt)"
    and acc: "userRepository_findByEmail s1 (identifier vt) = Some u"
  shows "\<exists>dto s2 u'. verifyEmail e1 s1 tok = (Inr dto, s2) \<and>
           field dto ''emailVerified'' = Some (JDate (now e1)) \<and>
           userRepository_findByEmail s2 (identifier vt) = Some u' \<and>
           emailVerified u' = Some (now e1) \<and>
           tok \<notin> token ` set (tokens s2) \<and>
           (\<forall>e2. fst (verifyEmail e2 s2 tok) = Inl (AppError AUTHENTICATION_ERROR INVALID_TOKEN))"
proof -
  define s2 where
    "s2 = s1\<lparr>users := map (\<lambda>x. if id' x = id' u then markVerified e1 x else x) (users s1),
             tokens := filter (\<lambda>r. \<not> (identifier r = identifier vt \<and> token r = token vt))
                         (tokens s1)\<rparr>"
  from verifyEmail_success [OF tok live acc] obtain u0 where
    run: "verifyEmail e1 s1 tok = (Inr (toUserDTO (markVerified e1 u0)), s2)"
    unfolding s2_def by blast
  have tv: "token vt = tok"
    using tok find_Some_mem [of "\<lambda>r. token r = tok" "tokens s1" vt]
    by (simp add: verificationTokenRepository_findByTokenValue_def)
  have f1: "field (toUserDTO (markVerified e1 u0)) ''emailVerified'' = Some (JDate (now e1))"
    by (simp add: field_emailVerified markVerified_def nullable_def)
  have f2: "userRepository_findByEmail s2 (identifier vt) = Some (markVerified e1 u)"
    unfolding s2_def by (simp add: findByEmail_after_verify acc)
  have f3: "emailVerified (markVerified e1 u) = Some (now e1)"
    by (simp add: markVerified_def)
  have ts: "tokens s2 = filter (\<lambda>r. \<not> (identifier r = identifier vt \<and> token r = token vt))
                         (tokens s1)"
    by (simp add: s2_def)
  have f4: "tok \<notin> token ` set (tokens s2)"
  proof
    assume "tok \<in> token ` set (tokens s2)"
    then obtain r where r: "r \<in> set (tokens s2)" "token r = tok" by auto
    from r(1) have m: "r \<in> set (tokens s1)" and
      n: "\<not> (identifier r = identifier vt \<and> token r = token vt)"
      unfolding ts by simp_all
    from only m r(2) have "r = vt" by blast
    with n show False by simp
  qed
  have f5: "\<forall>e2. fst (verifyEmail e2 s2 tok) = Inl (AppError AUTHENTICATION_ERROR INVALID_TOKEN)"
    using verifyEmail_unknown_token [OF findByTokenValue_absent [OF f4]] by simp
  show ?thesis
    apply (rule exI [of _ "toUserDTO (markVerified e1 u0)"])
    apply (rule exI [of _ s2])
    apply (rule exI [of _ "markVerified e1 u"])
    using run f1 f2 f3 f4 f5 apply blast
    done
qed

lemma resend_success:
  assumes "resendVerification e s em = (Inr tok, s1)"
  shows "tok = generateVerificationToken e \<and>
         (\<exists>usr. userRepository_findByEmail s em = Some usr \<and> emailVerified usr = None) \<and>
         \<not> list_ex (\<lambda>r. token r = tok) (filter (\<lambda>r. identifier r \<noteq> em) (tokens s)) \<and>
         s1 = \<lparr>users = users s,
               tokens = filter (\<lambda>r. identifier r \<noteq> em) (tokens s) @
                          [\<lparr>identifier = em, token = tok,
                            expires = generateTokenExpiry (now e) 24\<rparr>]\<rparr>"
  using assms
  by (auto simp: resendVerification_def verificationTokenRepository_create_def
      verificationTokenRepository_deleteByIdentifier_def
      Let_def split: if_splits option.splits)

lemma register_issues_token:
  assumes norm: "toLowerCase (email_r data) = email_r data"
    and reg: "register hashPassword e s data = (Inr res, s1)"
  shows "verificationTokenRepository_findByTokenValue s1 (verificationToken res) =
           Some \<lparr>identifier = email_r data, token = verificationToken res,
                 expires = generateTokenExpiry (now e) 24\<rparr> \<and>
         (\<forall>r\<in>set (tokens s1). token r = verificationToken res \<longrightarrow>
            r = \<lparr>identifier = email_r data, token = verificationToken res,
                  expires = generateTokenExpiry (now e) 24\<rparr>) \<and>
         (\<exists>u. userRepository_findByEmail s1 (email_r data) = Some u)"
proof -
  let ?usr = "\<lparr>id' = cuid e, name = Some (name_r data), email = email_r data,
               emailVerified = None,
               password = Some (hashPassword (salt e) (password_r data)), image' = None,
               role = USER, createdAt = now e, updatedAt = now e\<rparr>"
  let ?vt = "\<lparr>identifier = email_r data, token = generateVerificationToken e,
              expires = generateTokenExpiry (now e) 24\<rparr>"
  from register_success [OF reg] have
    nu: "\<not> list_ex (\<lambda>u. id' u = cuid e \<or> email u = email_r data) (users s)" and
    nt: "\<not> list_ex (\<lambda>r. token r = generateVerificationToken e) (tokens s)" and
    res: "verificationToken res = generateVerificationToken e" and
    us: "users s1 = users s @ [?usr]" and
    ts: "tokens s1 = tokens s @ [?vt]"
    by (simp_all add: Let_def)
  have a: "verificationTokenRepository_findByTokenValue s1 (verificationToken res) = Some ?vt"
    unfolding verificationTokenRepository_findByTokenValue_def ts res
    using nt by (intro find_append_new) simp_all
  have b: "\<forall>r\<in>set (tokens s1). token r = verificationToken res \<longrightarrow> r = ?vt"
    unfolding ts res using nt by (auto simp: list_ex_iff)
  have "\<not> list_ex (\<lambda>u. email u = email_r data) (users s)"
    using nu by (auto simp: list_ex_iff)
  then have "find (\<lambda>u. email u = email_r data) (users s @ [?usr]) = Some ?usr"
    by (intro find_append_new) simp_all
  then have c: "userRepository_findByEmail s1 (email_r data) = Some ?usr"
    unfolding userRepository_findByEmail_def us norm .
  from a b c show ?thesis unfolding res by blast
qed

lemma resend_issues_token:
  assumes rs: "resendVerification e s em = (Inr tok, s1)"
  shows "verificationTokenRepository_findByTokenValue s1 tok =
           Some \<lparr>identifier = em, token = tok, expires = generateTokenExpiry (now e) 24\<rparr> \<and>
         (\<forall>r\<in>set (tokens s1). token r = tok \<longrightarrow>
            r = \<lparr>identifier = em, token = tok, expires = generateTokenExpiry (now e) 24\<rparr>) \<and>
         (\<exists>u. userRepository_findByEmail s1 em = Some u)"
proof -
  let ?vt = "\<lparr>identifier = em, token = tok, expires = generateTokenExpiry (now e) 24\<rparr>"
  from resend_success [OF rs] obtain usr where
    u: "userRepository_findByEmail s em = Some usr" and
    nt: "\<not> list_ex (\<lambda>r. token r = tok) (filter (\<lambda>r. identifier r \<noteq> em) (tokens s))" and
    us: "users s1 = users s" and
    ts: "tokens s1 = filter (\<lambda>r. identifier r \<noteq> em) (tokens s) @ [?vt]"
    by auto
  have a: "verificationTokenRepository_findByTokenValue s1 tok = Some ?vt"
    unfolding verificationTokenRepository_findByTokenValue_def ts
    using nt by (intro find_append_new) simp_all
  have b: "\<forall>r\<in>set (tokens s1). token r = tok \<longrightarrow> r = ?vt"
    unfolding ts using nt by (auto simp: list_ex_iff)
  have c: "userRepository_findByEmail s1 em = Some usr"
    using u unfolding userRepository_findByEmail_def us .
  from a b c show ?thesis by blast
qed

text \<open>
  C1. Let a token be freshly issued, by a successful \<open>register\<close> on input that passed
  \<open>registerSchema\<close> or by a successful \<open>resendVerification\<close>, and let the clock of the
  next call be no later than its expiry. Then \<open>verifyEmail\<close> with that token succeeds,
  the view returned and the stored account both carry the clock reading in
  \<open>emailVerified\<close>, no row with the token value is left, and a second \<open>verifyEmail\<close>
  with the same token on the resulting database fails with \<open>INVALID_TOKEN\<close>, at any
  time.
\<close>

theorem C1_fresh_token_verifies_once:
  assumes issued:
    "(registerSchema isEmail raw = Inr data \<and>
      register hashPassword e s data = (Inr res, s1) \<and> tok = verificationToken res \<and>
      em = email_r data) \<or>
     resendVerification e s em = (Inr tok, s1)"
    and unexpired: "\<not> isTokenExpired (now e1) (generateTokenExpiry (now e) 24)"
  shows "\<exists>dto s2 u'. verifyEmail e1 s1 tok = (Inr dto, s2) \<and>
           field dto ''emailVerified'' = Some (JDate (now e1)) \<and>
           userRepository_findByEmail s2 em = Some u' \<and>
           emailVerified u' = Some (now e1) \<and>
           tok \<notin> token ` set (tokens s2) \<and>
           (\<forall>e2. fst (verifyEmail e2 s2 tok) = Inl (AppError AUTHENTICATION_ERROR INVALID_TOKEN))"
proof -
  let ?vt = "\<lparr>identifier = em, token = tok, expires = generateTokenExpiry (now e) 24\<rparr>"
  have "verificationTokenRepository_findByTokenValue s1 tok = Some ?vt \<and>
        (\<forall>r\<in>set (tokens s1). token r = tok \<longrightarrow> r = ?vt) \<and>
        (\<exists>u. userRepository_findByEmail s1 em = Some u)"
    using issued
  proof
    assume a: "registerSchema isEmail raw = Inr data \<and>
      register hashPassword e s data = (Inr res, s1) \<and> tok = verificationToken res \<and>
      em = email_r data"
    then have norm: "toLowerCase (email_r data) = email_r data"
      using registerSchema_normalized by blast
    from a have reg: "register hashPassword e s data = (Inr res, s1)" by simp
    from register_issues_token [OF norm reg] a show ?thesis by simp
  next
    assume a: "resendVerification e s em = (Inr tok, s1)"
    from resend_issues_token [OF a] show ?thesis .
  qed
  then obtain u where
    t: "verificationTokenRepository_findByTokenValue s1 tok = Some ?vt" and
    o: "\<forall>r\<in>set (tokens s1). token r = tok \<longrightarrow> r = ?vt" and
    a: "userRepository_findByEmail s1 (identifier ?vt) = Some u"
    by auto
  have l: "\<not> isTokenExpired (now e1) (expires ?vt)"
    using unexpired by simp
  from verifyEmail_single_use [OF t o l a]
  show ?thesis by simp
qed

theorem C1_fresh_token_verifies_once_witness:
  "registerSchema exIsEmail exRaw = Inr exRaw \<and>
   register exHashPassword exEnv0 exDb0 exRaw =
     (Inr \<lparr>user = toUserDTO (exUser1 exHashPassword), verificationToken = exToken1\<rparr>,
      exDb1 exHashPassword) \<and>
   \<not> isTokenExpired (now exEnv2) (generateTokenExpiry (now exEnv0) 24) \<and>
   (\<exists>dto s2 u'. verifyEmail exEnv2 (exDb1 exHashPassword) exToken1 = (Inr dto, s2) \<and>
      field dto ''emailVerified'' = Some (JDate (now exEnv2)) \<and>
      userRepository_findByEmail s2 ''a@example.com'' = Some u' \<and>
      emailVerified u' = Some (now exEnv2) \<and>
      exToken1 \<notin> token ` set (tokens s2) \<and>
      (\<forall>e2. fst (verifyEmail e2 s2 exToken1) = Inl (AppError AUTHENTICATION_ERROR INVALID_TOKEN)))"
proof -
  let ?res = "\<lparr>user = toUserDTO (exUser1 exHashPassword), verificationToken = exToken1\<rparr>"
  have sch: "registerSchema exIsEmail exRaw = Inr exRaw" by code_simp
  have live: "\<not> isTokenExpired (now exEnv2) (generateTokenExpiry (now exEnv0) 24)"
    by code_simp
  have em: "''a@example.com'' = email_r exRaw" by code_simp
  have issued: "registerSchema exIsEmail exRaw = Inr exRaw \<and>
      register exHashPassword exEnv0 exDb0 exRaw = (Inr ?res, exDb1 exHashPassword) \<and>
      exToken1 = verificationToken ?res \<and> ''a@example.com'' = email_r exRaw"
    using sch ex_register [of exHashPassword] em by simp
  from C1_fresh_token_verifies_once
    [where isEmail = exIsEmail and raw = exRaw and data = exRaw
       and hashPassword = exHashPassword and e = exEnv0 and s = exDb0 and res = ?res
       and ?s1.0 = "exDb1 exHashPassword" and tok = exToken1 and em = "''a@example.com''"
       and ?e1.0 = exEnv2, OF disjI1 live, OF issued]
    sch ex_register [of exHashPassword] live
  show ?thesis by blast
qed

text \<open>
  C5. For an account with a stored, non-empty password hash against which the password of
  the login verifies: while \<open>emailVerified\<close> is null, \<open>login\<close> fails with
  \<open>EMAIL_NOT_VERIFIED\<close>; and in the database left by any successful \<open>verifyEmail\<close> of
  a token of that account, the same login succeeds with a view that has no
  \<open>password\<close> property and carries the time of the verification.
\<close>

theorem C5_login_gated_by_verification:
  assumes acc: "userRepository_findByEmail s (email_l data) = Some u"
    and hash: "password u = Some h" "h \<noteq> []"
    and ok: "verifyPassword (password_l data) h"
    and unverified: "emailVerified u = None"
  shows "login verifyPassword s data = Inl (AppError AUTHENTICATION_ERROR EMAIL_NOT_VERIFIED) \<and>
         (\<forall>e tok vt dto s'.
            verificationTokenRepository_findByTokenValue s tok = Some vt \<and>
            userRepository_findByEmail s (identifier vt) = Some u \<and>
            verifyEmail e s tok = (Inr dto, s') \<longrightarrow>
            (\<exists>dto'. login verifyPassword s' data = Inr dto' \<and>
                    ''password'' \<notin> set (keys dto') \<and>
                    field dto' ''emailVerified'' = Some (JDate (now e))))"
proof (intro conjI allI impI)
  show "login verifyPassword s data = Inl (AppError AUTHENTICATION_ERROR EMAIL_NOT_VERIFIED)"
    using acc hash ok unverified by (simp add: login_def)
next
  fix e tok vt dto s'
  assume h: "verificationTokenRepository_findByTokenValue s tok = Some vt \<and>
             userRepository_findByEmail s (identifier vt) = Some u \<and>
             verifyEmail e s tok = (Inr dto, s')"
  then have live: "\<not> isTokenExpired (now e) (expires vt)"
    using verifyEmail_Inr_live by blast
  from verifyEmail_success [OF _ live, of s tok u] h
  have s': "s' = s\<lparr>users := map (\<lambda>x. if id' x = id' u then markVerified e x else x) (users s),
                  tokens := filter (\<lambda>r. \<not> (identifier r = identifier vt \<and> token r = token vt))
                              (tokens s)\<rparr>"
    by auto
  have found: "userRepository_findByEmail s' (email_l data) = Some (markVerified e u)"
    unfolding s' by (simp add: findByEmail_after_verify acc)
  have "login verifyPassword s' data = Inr (toUserDTO (markVerified e u))"
    using found hash ok by (intro login_success [where h = h]) (simp_all add: markVerified_def)
  moreover have "field (toUserDTO (markVerified e u)) ''emailVerified'' = Some (JDate (now e))"
    by (simp add: field_emailVerified markVerified_def nullable_def)
  ultimately show "\<exists>dto'. login verifyPassword s' data = Inr dto' \<and>
                    ''password'' \<notin> set (keys dto') \<and>
                    field dto' ''emailVerified'' = Some (JDate (now e))"
    by (simp add: keys_toUserDTO)
qed

theorem C5_login_gated_by_verification_witness:
  "userRepository_findByEmail (exDb1 exHashPassword) (email_l exLogin) =
     Some (exUser1 exHashPassword) \<and>
   password (exUser1 exHashPassword) = Some ''s1Sup3r$ecret'' \<and>
   ''s1Sup3r$ecret'' \<noteq> [] \<and>
   exVerifyPassword (password_l exLogin) ''s1Sup3r$ecret'' \<and>
   emailVerified (exUser1 exHashPassword) = None \<and>
   login exVerifyPassword (exDb1 exHashPassword) exLogin =
     Inl (AppError AUTHENTICATION_ERROR EMAIL_NOT_VERIFIED) \<and>
   verificationTokenRepository_findByTokenValue (exDb1 exHashPassword) exToken1 = Some exRow1 \<and>
   userRepository_findByEmail (exDb1 exHashPassword) (identifier exRow1) =
     Some (exUser1 exHashPassword) \<and>
   verifyEmail exEnv2 (exDb1 exHashPassword) exToken1 =
     (Inr (toUserDTO (markVerified exEnv2 (exUser1 exHashPassword))), exDb1v exHashPassword) \<and>
   (\<exists>dto'. login exVerifyPassword (exDb1v exHashPassword) exLogin = Inr dto' \<and>
           ''password'' \<notin> set (keys dto') \<and>
           field dto' ''emailVerified'' = Some (JDate (now exEnv2)))"
proof -
  have a: "userRepository_findByEmail (exDb1 exHashPassword) (email_l exLogin) =
             Some (exUser1 exHashPassword)"
    by code_simp
  have b: "password (exUser1 exHashPassword) = Some ''s1Sup3r$ecret''" by code_simp
  have c: "''s1Sup3r$ecret'' \<noteq> []" by simp
  have d: "exVerifyPassword (password_l exLogin) ''s1Sup3r$ecret''" by code_simp
  have f: "emailVerified (exUser1 exHashPassword) = None" by code_simp
  have g: "verificationTokenRepository_findByTokenValue (exDb1 exHashPassword) exToken1 =
             Some exRow1"
    by code_simp
  have h: "userRepository_findByEmail (exDb1 exHashPassword) (identifier exRow1) =
             Some (exUser1 exHashPassword)"
    by code_simp
  have i: "verifyEmail exEnv2 (exDb1 exHashPassword) exToken1 =
             (Inr (toUserDTO (markVerified exEnv2 (exUser1 exHashPassword))),
              exDb1v exHashPassword)"
    by code_simp
  note r = C5_login_gated_by_verification
    [where verifyPassword = exVerifyPassword and data = exLogin
       and s = "exDb1 exHashPassword" and u = "exUser1 exHashPassword"
       and h = "''s1Sup3r$ecret''", OF a b c d f]
  from r have r1: "login exVerifyPassword (exDb1 exHashPassword) exLogin =
     Inl (AppError AUTHENTICATION_ERROR EMAIL_NOT_VERIFIED)"
    by (rule conjunct1)
  from r have r2: "verificationTokenRepository_findByTokenValue (exDb1 exHashPassword) exToken1 =
                Some exRow1 \<and>
            userRepository_findByEmail (exDb1 exHashPassword) (identifier exRow1) =
              Some (exUser1 exHashPassword) \<and>
            verifyEmail exEnv2 (exDb1 exHashPassword) exToken1 =
              (Inr (toUserDTO (markVerified exEnv2 (exUser1 exHashPassword))),
               exDb1v exHashPassword) \<longrightarrow>
            (\<exists>dto'. login exVerifyPassword (exDb1v exHashPassword) exLogin = Inr dto' \<and>
                    ''password'' \<notin> set (keys dto') \<and>
                    field dto' ''emailVerified'' = Some (JDate (now exEnv2)))"
    by blast
  from r1 r2 a b c d f g h i show ?thesis by blast
qed

text \<open>
  C6. In a database that satisfies the uniqueness constraints, \<open>verifyEmail\<close> with a
  stored token whose expiry is strictly before the clock reading fails with
  \<open>INVALID_TOKEN\<close>; the database it leaves has no row with that token value, and its
  user rows are unchanged.
\<close>

theorem C6_expired_token_deleted:
  assumes cons: "dbConstraints s"
    and stored: "vt \<in> set (tokens s)"
    and past: "expires vt < now e"
  shows "fst (verifyEmail e s (token vt)) = Inl (AppError AUTHENTICATION_ERROR INVALID_TOKEN) \<and>
         token vt \<notin> token ` set (tokens (snd (verifyEmail e s (token vt)))) \<and>
         users (snd (verifyEmail e s (token vt))) = users s"
proof -
  have d: "distinct (map token (tokens s))"
    using cons by (simp add: dbConstraints_def)
  have found: "verificationTokenRepository_findByTokenValue s (token vt) = Some vt"
    unfolding verificationTokenRepository_findByTokenValue_def
    using d stored by (rule find_distinct_key)
  have res: "verifyEmail e s (token vt) =
          (Inl (AppError AUTHENTICATION_ERROR INVALID_TOKEN),
           verificationTokenRepository_deleteByIdentifier s (identifier vt))"
    using found past by (simp add: verifyEmail_def isTokenExpired_def)
  have gone: "token vt \<notin> token ` set (filter (\<lambda>r. identifier r \<noteq> identifier vt) (tokens s))"
  proof
    assume "token vt \<in> token ` set (filter (\<lambda>r. identifier r \<noteq> identifier vt) (tokens s))"
    then obtain r where r: "r \<in> set (tokens s)" "identifier r \<noteq> identifier vt" "token r = token vt"
      by auto
    from d r(1) stored r(3) have "r = vt"
      by (metis distinct_map inj_on_def)
    with r(2) show False by simp
  qed
  show ?thesis
    unfolding res using gone
    by (simp add: verificationTokenRepository_deleteByIdentifier_def)
qed

theorem C6_expired_token_deleted_witness:
  "dbConstraints (exDb1 exHashPassword) \<and> exRow1 \<in> set (tokens (exDb1 exHashPassword)) \<and>
   expires exRow1 < now exEnvLate \<and>
   fst (verifyEmail exEnvLate (exDb1 exHashPassword) (token exRow1)) =
     Inl (AppError AUTHENTICATION_ERROR INVALID_TOKEN) \<and>
   token exRow1 \<notin>
     token ` set (tokens (snd (verifyEmail exEnvLate (exDb1 exHashPassword) (token exRow1)))) \<and>
   users (snd (verifyEmail exEnvLate (exDb1 exHashPassword) (token exRow1))) =
     users (exDb1 exHashPassword)"
proof -
  have a: "dbConstraints (exDb1 exHashPassword)" by code_simp
  have b: "exRow1 \<in> set (tokens (exDb1 exHashPassword))" by (simp add: exDb1_def)
  have c: "expires exRow1 < now exEnvLate" by code_simp
  from C6_expired_token_deleted [OF a b c] a b c show ?thesis by blast
qed

subsection \<open>Account views\<close>

lemma toUserDTO_ignores_password: "toUserDTO (u\<lparr>password := p\<rparr>) = toUserDTO u"
  by (simp add: toUserDTO_def)

lemma register_Inr_view:
  assumes "register hashPassword e s data = (Inr res, s')"
  shows "(\<exists>u\<in>set (users s'). user res = toUserDTO u) \<and>
         verificationToken res = generateVerificationToken e"
  using register_success [OF assms] by (simp add: Let_def)

lemma login_Inr_view:
  assumes "login verifyPassword s data = Inr dto"
  shows "\<exists>u\<in>set (users s). dto = toUserDTO u"
proof -
  from assms obtain u where
    u: "userRepository_findByEmail s (email_l data) = Some u" and d: "dto = toUserDTO u"
    by (auto simp: login_def split: option.splits if_splits)
  from u have "u \<in> set (users s)"
    using find_Some_mem [of _ "users s" u] by (simp add: userRepository_findByEmail_def)
  with d show ?thesis by blast
qed

lemma verifyEmail_Inr_view:
  assumes run: "verifyEmail e s tok = (Inr dto, s')"
  shows "\<exists>u\<in>set (users s'). dto = toUserDTO u"
proof -
  from run obtain vt where vt: "verificationTokenRepository_findByTokenValue s tok = Some vt"
    by (cases "verificationTokenRepository_findByTokenValue s tok")
      (auto simp: verifyEmail_def)
  have live: "\<not> isTokenExpired (now e) (expires vt)"
    using run vt by (rule verifyEmail_Inr_live)
  from run vt live obtain usr where
    usr: "userRepository_findByEmail s (identifier vt) = Some usr"
    by (cases "userRepository_findByEmail s (identifier vt)") (auto simp: verifyEmail_def)
  from verifyEmail_success [OF vt live usr, of ] obtain u0 where
    u0: "find (\<lambda>x. id' x = id' usr) (users s) = Some u0" and
    eq: "verifyEmail e s tok =
           (Inr (toUserDTO (markVerified e u0)),
            s\<lparr>users := map (\<lambda>x. if id' x = id' usr then markVerified e x else x) (users s),
              tokens := filter (\<lambda>r. \<not> (identifier r = identifier vt \<and> token r = token vt))
                          (tokens s)\<rparr>)"
    by blast
  from u0 have m: "u0 \<in> set (users s)" and i: "id' u0 = id' usr"
    using find_Some_mem [of "\<lambda>x. id' x = id' usr" "users s" u0] by simp_all
  from eq run have d: "dto = toUserDTO (markVerified e u0)" and
    s': "users s' = map (\<lambda>x. if id' x = id' usr then markVerified e x else x) (users s)"
    by simp_all
  have "markVerified e u0 \<in> set (users s')"
    unfolding s' using m i by force
  with d show ?thesis by blast
qed

lemma getUserById_view:
  assumes "getUserById s i = Some dto"
  shows "\<exists>u\<in>set (users s). dto = toUserDTO u"
proof -
  from assms obtain u where
    u: "userRepository_findById s i = Some u" and d: "dto = toUserDTO u"
    by (auto simp: getUserById_def)
  from u have "u \<in> set (users s)"
    using find_Some_mem [of _ "users s" u] by (simp add: userRepository_findById_def)
  with d show ?thesis by blast
qed

lemma getUserByEmail_view:
  assumes "getUserByEmail s em = Some dto"
  shows "\<exists>u\<in>set (users s). dto = toUserDTO u"
proof -
  from assms obtain u where
    u: "userRepository_findByEmail s em = Some u" and d: "dto = toUserDTO u"
    by (auto simp: getUserByEmail_def)
  from u have "u \<in> set (users s)"
    using find_Some_mem [of _ "users s" u] by (simp add: userRepository_findByEmail_def)
  with d show ?thesis by blast
qed

text \<open>
  C8. Every account view in a successful result of \<open>register\<close>, \<open>login\<close>,
  \<open>verifyEmail\<close>, \<open>getUserById\<close> or \<open>getUserByEmail\<close> is \<open>toUserDTO\<close> of a user
  row of the database the call leaves (or reads); the other part of the result of
  \<open>register\<close> is the generated token. \<open>toUserDTO\<close> of a row does not depend on the
  row's \<open>password\<close> column, and its properties are exactly \<open>id\<close>, \<open>name\<close>,
  \<open>email\<close>, \<open>emailVerified\<close>, \<open>image\<close>, \<open>role\<close>, \<open>createdAt\<close> and \<open>updatedAt\<close>:
  none is named \<open>password\<close>. So no successful result carries the stored hash.
\<close>

theorem C8_views_omit_password:
  "(\<forall>u p. toUserDTO (u\<lparr>password := p\<rparr>) = toUserDTO u \<and>
          keys (toUserDTO u) =
            [''id'', ''name'', ''email'', ''emailVerified'', ''image'', ''role'',
             ''createdAt'', ''updatedAt''] \<and>
          ''password'' \<notin> set (keys (toUserDTO u))) \<and>
   (\<forall>res s'. register hashPassword e s rdata = (Inr res, s') \<longrightarrow>
      (\<exists>u\<in>set (users s'). user res = toUserDTO u) \<and>
      verificationToken res = generateVerificationToken e) \<and>
   (\<forall>dto. login verifyPassword s ldata = Inr dto \<longrightarrow>
      (\<exists>u\<in>set (users s). dto = toUserDTO u)) \<and>
   (\<forall>dto s'. verifyEmail e s tok = (Inr dto, s') \<longrightarrow>
      (\<exists>u\<in>set (users s'). dto = toUserDTO u)) \<and>
   (\<forall>dto. getUserById s i = Some dto \<longrightarrow> (\<exists>u\<in>set (users s). dto = toUserDTO u)) \<and>
   (\<forall>dto. getUserByEmail s em = Some dto \<longrightarrow> (\<exists>u\<in>set (users s). dto = toUserDTO u))"
proof (intro conjI allI impI)
  fix u p
  show "toUserDTO (u\<lparr>password := p\<rparr>) = toUserDTO u"
    by (rule toUserDTO_ignores_password)
  show "keys (toUserDTO u) =
          [''id'', ''name'', ''email'', ''emailVerified'', ''image'', ''role'',
           ''createdAt'', ''updatedAt'']"
    by (rule keys_toUserDTO)
  show "''password'' \<notin> set (keys (toUserDTO u))"
    by (simp add: keys_toUserDTO)
next
  fix res s' assume a: "register hashPassword e s rdata = (Inr res, s')"
  from register_Inr_view [OF a]
  show "\<exists>u\<in>set (users s'). user res = toUserDTO u"
    and "verificationToken res = generateVerificationToken e"
    by simp_all
next
  fix dto assume "login verifyPassword s ldata = Inr dto"
  then show "\<exists>u\<in>set (users s). dto = toUserDTO u" by (rule login_Inr_view)
next
  fix dto s' assume "verifyEmail e s tok = (Inr dto, s')"
  then show "\<exists>u\<in>set (users s'). dto = toUserDTO u" by (rule verifyEmail_Inr_view)
next
  fix dto assume "getUserById s i = Some dto"
  then show "\<exists>u\<in>set (users s). dto = toUserDTO u" by (rule getUserById_view)
next
  fix dto assume "getUserByEmail s em = Some dto"
  then show "\<exists>u\<in>set (users s). dto = toUserDTO u" by (rule getUserByEmail_view)
qed

theorem C8_views_omit_password_witness:
  "register exHashPassword exEnv0 exDb0 exRaw =
     (Inr \<lparr>user = toUserDTO (exUser1 exHashPassword), verificationToken = exToken1\<rparr>,
      exDb1 exHashPassword) \<and>
   (\<exists>u\<in>set (users (exDb1 exHashPassword)).
      user \<lparr>user = toUserDTO (exUser1 exHashPassword), verificationToken = exToken1\<rparr> =
        toUserDTO u) \<and>
   exToken1 = generateVerificationToken exEnv0 \<and>
   login exVerifyPassword (exDb1v exHashPassword) exLogin =
     Inr (toUserDTO (markVerified exEnv2 (exUser1 exHashPassword))) \<and>
   verifyEmail exEnv2 (exDb1 exHashPassword) exToken1 =
     (Inr (toUserDTO (markVerified exEnv2 (exUser1 exHashPassword))), exDb1v exHashPassword) \<and>
   (\<exists>u\<in>set (users (exDb1v exHashPassword)).
      toUserDTO (markVerified exEnv2 (exUser1 exHashPassword)) = toUserDTO u) \<and>
   getUserById (exDb1 exHashPassword) ''u1'' = Some (toUserDTO (exUser1 exHashPassword)) \<and>
   getUserByEmail (exDb1 exHashPassword) ''A@Example.com'' =
     Some (toUserDTO (exUser1 exHashPassword)) \<and>
   (\<exists>u\<in>set (users (exDb1 exHashPassword)). toUserDTO (exUser1 exHashPassword) = toUserDTO u) \<and>
   toUserDTO ((exUser1 exHashPassword)\<lparr>password := Some ''other''\<rparr>) =
     toUserDTO (exUser1 exHashPassword) \<and>
   password (exUser1 exHashPassword) \<noteq> Some ''other'' \<and>
   keys (toUserDTO (exUser1 exHashPassword)) =
     [''id'', ''name'', ''email'', ''emailVerified'', ''image'', ''role'', ''createdAt'',
      ''updatedAt''] \<and>
   ''password'' \<notin> set (keys (toUserDTO (exUser1 exHashPassword)))"
proof -
  let ?res = "\<lparr>user = toUserDTO (exUser1 exHashPassword), verificationToken = exToken1\<rparr>"
  have a: "register exHashPassword exEnv0 exDb0 exRaw = (Inr ?res, exDb1 exHashPassword)"
    by code_simp
  have b: "login exVerifyPassword (exDb1v exHashPassword) exLogin =
     Inr (toUserDTO (markVerified exEnv2 (exUser1 exHashPassword)))"
    by code_simp
  have c: "verifyEmail exEnv2 (exDb1 exHashPassword) exToken1 =
     (Inr (toUserDTO (markVerified exEnv2 (exUser1 exHashPassword))), exDb1v exHashPassword)"
    by code_simp
  have d: "getUserById (exDb1 exHashPassword) ''u1'' = Some (toUserDTO (exUser1 exHashPassword))"
    by code_simp
  have f: "getUserByEmail (exDb1 exHashPassword) ''A@Example.com'' =
     Some (toUserDTO (exUser1 exHashPassword))"
    by code_simp
  have g: "password (exUser1 exHashPassword) \<noteq> Some ''other''"
    by code_simp
  note t1 = C8_views_omit_password
    [where hashPassword = exHashPassword and e = exEnv0 and s = exDb0 and rdata = exRaw]
  note t2 = C8_views_omit_password
    [where e = exEnv2 and s = "exDb1 exHashPassword" and tok = exToken1 and i = "''u1''"]
  from t1 a have r1: "(\<exists>u\<in>set (users (exDb1 exHashPassword)). user ?res = toUserDTO u) \<and>
      verificationToken ?res = generateVerificationToken exEnv0"
    by blast
  then have r1': "exToken1 = generateVerificationToken exEnv0" by simp
  from t2 c have r2: "\<exists>u\<in>set (users (exDb1v exHashPassword)).
      toUserDTO (markVerified exEnv2 (exUser1 exHashPassword)) = toUserDTO u"
    by blast
  from t2 d have r3: "\<exists>u\<in>set (users (exDb1 exHashPassword)).
      toUserDTO (exUser1 exHashPassword) = toUserDTO u"
    by blast
  from t1 have r4: "toUserDTO ((exUser1 exHashPassword)\<lparr>password := Some ''other''\<rparr>) =
       toUserDTO (exUser1 exHashPassword)"
    and r5: "keys (toUserDTO (exUser1 exHashPassword)) =
     [''id'', ''name'', ''email'', ''emailVerified'', ''image'', ''role'', ''createdAt'',
      ''updatedAt'']"
    and r6: "''password'' \<notin> set (keys (toUserDTO (exUser1 exHashPassword)))"
    by blast+
  from a b c d f g r1 r1' r2 r3 r4 r5 r6 show ?thesis by blast
qed

subsection \<open>Invariants of the reachable states\<close>

lemma tokensHaveAccount_iff:
  "tokensHaveAccount s \<longleftrightarrow>
     (\<forall>r\<in>set (tokens s). \<exists>u\<in>set (users s).
         email u = identifier r \<or> email u = toLowerCase (identifier r))"
  by (simp add: tokensHaveAccount_def list_all_iff list_ex_iff)

text \<open>The database each operation leaves behind, whatever its outcome.\<close>

lemma register_post:
  "snd (register hashPassword e s data) = s \<or>
   \<not> list_ex (\<lambda>u. id' u = cuid e \<or> email u = email_r data) (users s) \<and>
   (snd (register hashPassword e s data) =
      s\<lparr>users := users s @
           [\<lparr>id' = cuid e, name = Some (name_r data), email = email_r data,
             emailVerified = None,
             password = Some (hashPassword (salt e) (password_r data)), image' = None,
             role = USER, createdAt = now e, updatedAt = now e\<rparr>]\<rparr> \<or>
    \<not> list_ex (\<lambda>r. token r = generateVerificationToken e) (tokens s) \<and>
    snd (register hashPassword e s data) =
      s\<lparr>users := users s @
           [\<lparr>id' = cuid e, name = Some (name_r data), email = email_r data,
             emailVerified = None,
             password = Some (hashPassword (salt e) (password_r data)), image' = None,
             role = USER, createdAt = now e, updatedAt = now e\<rparr>],
        tokens := tokens s @ [\<lparr>identifier = email_r data,
                                token = generateVerificationToken e,
                                expires = generateTokenExpiry (now e) 24\<rparr>]\<rparr>)"
  by (simp add: register_def userRepository_create_def verificationTokenRepository_create_def
      Let_def)

lemma verifyEmail_post:
  "\<exists>i em. snd (verifyEmail e s tok) = s \<or>
     snd (verifyEmail e s tok) = s\<lparr>tokens := filter (\<lambda>r. identifier r \<noteq> em) (tokens s)\<rparr> \<or>
     snd (verifyEmail e s tok) =
       s\<lparr>users := map (\<lambda>x. if id' x = i then markVerified e x else x) (users s)\<rparr> \<or>
     (\<exists>t. snd (verifyEmail e s tok) =
       s\<lparr>users := map (\<lambda>x. if id' x = i then markVerified e x else x) (users s),
         tokens := filter (\<lambda>r. \<not> (identifier r = em \<and> token r = t)) (tokens s)\<rparr>)"
  by (auto simp: verifyEmail_def userRepository_verifyEmail_def
      verificationTokenRepository_delete_def verificationTokenRepository_deleteByIdentifier_def
      split: option.splits)

lemma resend_post:
  "snd (resendVerification e s em) = s \<or>
   (\<exists>usr. userRepository_findByEmail s em = Some usr \<and>
     (snd (resendVerification e s em) =
        s\<lparr>tokens := filter (\<lambda>r. identifier r \<noteq> em) (tokens s)\<rparr> \<or>
      \<not> list_ex (\<lambda>r. token r = generateVerificationToken e)
           (filter (\<lambda>r. identifier r \<noteq> em) (tokens s)) \<and>
      snd (resendVerification e s em) =
        s\<lparr>tokens := filter (\<lambda>r. identifier r \<noteq> em) (tokens s) @
                      [\<lparr>identifier = em, token = generateVerificationToken e,
                        expires = generateTokenExpiry (now e) 24\<rparr>]\<rparr>))"
  by (auto simp: resendVerification_def verificationTokenRepository_create_def
      verificationTokenRepository_deleteByIdentifier_def Let_def split: option.splits)

lemma tokensHaveAccount_register:
  assumes "tokensHaveAccount s"
  shows "tokensHaveAccount (snd (register hashPassword e s data))"
  using register_post [of hashPassword e s data] assms
  by (elim disjE conjE) (auto simp: tokensHaveAccount_iff)

lemma tokensHaveAccount_verifyEmail:
  assumes "tokensHaveAccount s"
  shows "tokensHaveAccount (snd (verifyEmail e s tok))"
proof -
  have m: "email (if id' x = i then markVerified e x else x) = email x" for x i
    by (simp add: markVerified_def)
  have im: "\<exists>u\<in>set (map (\<lambda>x. if id' x = i then markVerified e x else x) (users s)).
               email u = a \<or> email u = b"
    if "\<exists>u\<in>set (users s). email u = a \<or> email u = b" for i a b
    using that m by (metis (no_types, lifting) image_eqI list.set_map)
  from verifyEmail_post [of e s tok] obtain i em where
    "snd (verifyEmail e s tok) = s \<or>
     snd (verifyEmail e s tok) = s\<lparr>tokens := filter (\<lambda>r. identifier r \<noteq> em) (tokens s)\<rparr> \<or>
     snd (verifyEmail e s tok) =
       s\<lparr>users := map (\<lambda>x. if id' x = i then markVerified e x else x) (users s)\<rparr> \<or>
     (\<exists>t. snd (verifyEmail e s tok) =
       s\<lparr>users := map (\<lambda>x. if id' x = i then markVerified e x else x) (users s),
         tokens := filter (\<lambda>r. \<not> (identifier r = em \<and> token r = t)) (tokens s)\<rparr>)"
    by blast
  then show ?thesis
  proof (elim disjE exE)
    assume "snd (verifyEmail e s tok) = s"
    with assms show ?thesis by simp
  next
    assume "snd (verifyEmail e s tok) = s\<lparr>tokens := filter (\<lambda>r. identifier r \<noteq> em) (tokens s)\<rparr>"
    with assms show ?thesis by (simp add: tokensHaveAccount_iff)
  next
    assume "snd (verifyEmail e s tok) =
       s\<lparr>users := map (\<lambda>x. if id' x = i then markVerified e x else x) (users s)\<rparr>"
    with assms im show ?thesis by (simp add: tokensHaveAccount_iff)
  next
    fix t assume "snd (verifyEmail e s tok) =
       s\<lparr>users := map (\<lambda>x. if id' x = i then markVerified e x else x) (users s),
         tokens := filter (\<lambda>r. \<not> (identifier r = em \<and> token r = t)) (tokens s)\<rparr>"
    with assms im show ?thesis by (simp add: tokensHaveAccount_iff)
  qed
qed

lemma tokensHaveAccount_resend:
  assumes "tokensHaveAccount s"
  shows "tokensHaveAccount (snd (resendVerification e s em))"
proof -
  have acc: "\<exists>u\<in>set (users s). email u = toLowerCase em"
    if "userRepository_findByEmail s em = Some usr" for usr
    using that find_Some_mem [of "\<lambda>u. email u = toLowerCase em" "users s" usr]
    by (auto simp: userRepository_findByEmail_def)
  from resend_post [of e s em] assms show ?thesis
    by (elim disjE conjE exE) (auto simp: tokensHaveAccount_iff dest: acc)
qed

lemma reachable_tokensHaveAccount:
  "reachable isEmail hashPassword s \<Longrightarrow> tokensHaveAccount s"
proof (induction rule: reachable.induct)
  case initial
  show ?case by (simp add: tokensHaveAccount_def)
next
  case (registered s raw data e)
  then show ?case by (simp add: tokensHaveAccount_register)
next
  case (verified s tok e)
  then show ?case by (simp add: tokensHaveAccount_verifyEmail)
next
  case (resent s e em)
  then show ?case by (simp add: tokensHaveAccount_resend)
qed

lemma dbConstraints_register:
  assumes "dbConstraints s"
  shows "dbConstraints (snd (register hashPassword e s data))"
  using register_post [of hashPassword e s data] assms
  by (elim disjE conjE) (auto simp: dbConstraints_def list_ex_iff)

lemma map_key_markVerified:
  "map (id' \<circ> (\<lambda>x. if id' x = i then markVerified e x else x)) xs = map id' xs"
  "map (email \<circ> (\<lambda>x. if id' x = i then markVerified e x else x)) xs = map email xs"
  by (induction xs) (auto simp: markVerified_def)

lemma dbConstraints_verifyEmail:
  assumes "dbConstraints s"
  shows "dbConstraints (snd (verifyEmail e s tok))"
  using verifyEmail_post [of e s tok] assms
  by (elim disjE conjE exE)
    (auto simp: dbConstraints_def distinct_map_filter map_key_markVerified)

lemma dbConstraints_resend:
  assumes "dbConstraints s"
  shows "dbConstraints (snd (resendVerification e s em))"
  using resend_post [of e s em] assms
  by (elim disjE conjE exE) (auto simp: dbConstraints_def distinct_map_filter list_ex_iff)

lemma reachable_dbConstraints:
  "reachable isEmail hashPassword s \<Longrightarrow> dbConstraints s"
proof (induction rule: reachable.induct)
  case initial
  show ?case by (simp add: dbConstraints_def)
next
  case (registered s raw data e)
  then show ?case by (simp add: dbConstraints_register)
next
  case (verified s tok e)
  then show ?case by (simp add: dbConstraints_verifyEmail)
next
  case (resent s e em)
  then show ?case by (simp add: dbConstraints_resend)
qed

text \<open>
  C7. In a reachable database, for registration input that passed \<open>registerSchema\<close>
  and whose email no user row carries, and with a generated user id and token value not
  yet stored, \<open>register\<close> succeeds; the view returned has \<open>emailVerified\<close> null, and
  afterwards exactly one token row has that email as identifier: its token is the one
  returned and its expiry is the clock reading plus 24 hours.
\<close>

theorem C7_register_fresh_email:
  assumes reach: "reachable isEmail hashPassword s"
    and valid: "registerSchema isEmail raw = Inr data"
    and fresh: "\<not> userRepository_emailExists s (email_r data)"
    and rid: "cuid e \<notin> id' ` set (users s)"
    and rtok: "generateVerificationToken e \<notin> token ` set (tokens s)"
  shows "\<exists>res s'. register hashPassword e s data = (Inr res, s') \<and>
           field (user res) ''emailVerified'' = Some JNull \<and>
           filter (\<lambda>r. identifier r = email_r data) (tokens s') =
             [\<lparr>identifier = email_r data, token = verificationToken res,
               expires = now e + 24 * 60 * 60 * 1000\<rparr>]"
proof -
  have norm: "toLowerCase (email_r data) = email_r data"
    using valid by (rule registerSchema_normalized)
  note run = register_fresh_success [OF norm fresh rid rtok, of hashPassword]
  have nouser: "\<forall>u\<in>set (users s). email u \<noteq> email_r data"
    using fresh by (simp add: userRepository_emailExists_def find_None_iff norm)
  have "tokensHaveAccount s"
    using reach by (rule reachable_tokensHaveAccount)
  then have "\<forall>r\<in>set (tokens s). identifier r \<noteq> email_r data"
    using nouser norm unfolding tokensHaveAccount_iff by metis
  then have old: "filter (\<lambda>r. identifier r = email_r data) (tokens s) = []"
    by (simp add: filter_empty_conv)
  show ?thesis
    unfolding run
    by (simp add: old field_emailVerified nullable_def generateTokenExpiry_def)
qed

theorem C7_register_fresh_email_witness:
  "reachable exIsEmail exHashPassword exDb0 \<and>
   registerSchema exIsEmail exRaw = Inr exRaw \<and>
   \<not> userRepository_emailExists exDb0 (email_r exRaw) \<and>
   cuid exEnv0 \<notin> id' ` set (users exDb0) \<and>
   generateVerificationToken exEnv0 \<notin> token ` set (tokens exDb0) \<and>
   (\<exists>res s'. register exHashPassword exEnv0 exDb0 exRaw = (Inr res, s') \<and>
      field (user res) ''emailVerified'' = Some JNull \<and>
      filter (\<lambda>r. identifier r = email_r exRaw) (tokens s') =
        [\<lparr>identifier = email_r exRaw, token = verificationToken res,
          expires = now exEnv0 + 24 * 60 * 60 * 1000\<rparr>])"
proof -
  have a: "reachable exIsEmail exHashPassword exDb0"
    unfolding exDb0_def by (rule reachable.initial)
  have b: "registerSchema exIsEmail exRaw = Inr exRaw" by code_simp
  have c: "\<not> userRepository_emailExists exDb0 (email_r exRaw)" by code_simp
  have d: "cuid exEnv0 \<notin> id' ` set (users exDb0)" by (simp add: exDb0_def)
  have f: "generateVerificationToken exEnv0 \<notin> token ` set (tokens exDb0)"
    by (simp add: exDb0_def)
  from C7_register_fresh_email [OF a b c d f] a b c d f show ?thesis by blast
qed

subsection \<open>Verification of an account that is verified already\<close>

text \<open>
  C9. \<open>verifyEmail\<close> does not look at the verification status of the account. There
  is a reachable database with a stored, unexpired token whose account already has a
  non-null \<open>emailVerified\<close>: there \<open>verifyEmail\<close> with that token succeeds and
  overwrites \<open>emailVerified\<close> with the clock reading, whereas \<open>resendVerification\<close> for
  the same identifier fails with \<open>EMAIL_ALREADY_VERIFIED\<close>. (The database is reached by
  a registration, a resend with capitals in the address, and the verification of the
  first token; the email check is any that accepts \<open>a@example.com\<close>.)
\<close>

theorem C9_verifyEmail_ignores_verified_status:
  assumes "isEmail ''a@example.com''"
  shows "\<exists>s e tok vt u.
           reachable isEmail hashPassword s \<and>
           verificationTokenRepository_findByTokenValue s tok = Some vt \<and>
           \<not> isTokenExpired (now e) (expires vt) \<and>
           userRepository_findByEmail s (identifier vt) = Some u \<and>
           emailVerified u \<noteq> None \<and> emailVerified u \<noteq> Some (now e) \<and>
           (\<exists>dto s' u'. verifyEmail e s tok = (Inr dto, s') \<and>
              field dto ''emailVerified'' = Some (JDate (now e)) \<and>
              userRepository_findByEmail s' (identifier vt) = Some u' \<and>
              emailVerified u' = Some (now e)) \<and>
           fst (resendVerification e s (identifier vt)) =
             Inl (AppError VALIDATION_ERROR EMAIL_ALREADY_VERIFIED)"
proof -
  let ?s = "exDb3 hashPassword"
  let ?u = "markVerified exEnv2 (exUser1 hashPassword)"
  let ?s' = "\<lparr>users = [markVerified exEnv3 ?u], tokens = []\<rparr>"
  have r: "reachable isEmail hashPassword ?s"
    using assms by (rule ex_reachable)
  have a: "verificationTokenRepository_findByTokenValue ?s exToken2 = Some exRow2"
    by code_simp
  have b: "\<not> isTokenExpired (now exEnv3) (expires exRow2)"
    by code_simp
  have c: "userRepository_findByEmail ?s (identifier exRow2) = Some ?u"
    by code_simp
  have d: "emailVerified ?u \<noteq> None" "emailVerified ?u \<noteq> Some (now exEnv3)"
    by code_simp+
  have f: "verifyEmail exEnv3 ?s exToken2 = (Inr (toUserDTO (markVerified exEnv3 ?u)), ?s')"
    by code_simp
  have g: "field (toUserDTO (markVerified exEnv3 ?u)) ''emailVerified'' = Some (JDate (now exEnv3))"
    by code_simp
  have h: "userRepository_findByEmail ?s' (identifier exRow2) = Some (markVerified exEnv3 ?u)"
    by code_simp
  have i: "emailVerified (markVerified exEnv3 ?u) = Some (now exEnv3)"
    by code_simp
  have j: "fst (resendVerification exEnv3 ?s (identifier exRow2)) =
             Inl (AppError VALIDATION_ERROR EMAIL_ALREADY_VERIFIED)"
    by code_simp
  from f g h i have k: "\<exists>dto s' u'. verifyEmail exEnv3 ?s exToken2 = (Inr dto, s') \<and>
              field dto ''emailVerified'' = Some (JDate (now exEnv3)) \<and>
              userRepository_findByEmail s' (identifier exRow2) = Some u' \<and>
              emailVerified u' = Some (now exEnv3)"
    by blast
  show ?thesis
    apply (rule exI [of _ ?s])
    apply (rule exI [of _ exEnv3])
    apply (rule exI [of _ exToken2])
    apply (rule exI [of _ exRow2])
    apply (rule exI [of _ ?u])
    using r a b c d k j apply blast
    done
qed

theorem C9_verifyEmail_ignores_verified_status_witness:
  "exIsEmail ''a@example.com'' \<and>
   (\<exists>s e tok vt u.
           reachable exIsEmail exHashPassword s \<and>
           verificationTokenRepository_findByTokenValue s tok = Some vt \<and>
           \<not> isTokenExpired (now e) (expires vt) \<and>
           userRepository_findByEmail s (identifier vt) = Some u \<and>
           emailVerified u \<noteq> None \<and> emailVerified u \<noteq> Some (now e) \<and>
           (\<exists>dto s' u'. verifyEmail e s tok = (Inr dto, s') \<and>
              field dto ''emailVerified'' = Some (JDate (now e)) \<and>
              userRepository_findByEmail s' (identifier vt) = Some u' \<and>
              emailVerified u' = Some (now e)) \<and>
           fst (resendVerification e s (identifier vt)) =
             Inl (AppError VALIDATION_ERROR EMAIL_ALREADY_VERIFIED))"
proof -
  have h: "exIsEmail ''a@example.com''" by code_simp
  from C9_verifyEmail_ignores_verified_status [where isEmail = exIsEmail and hashPassword = exHashPassword, OF h] h
  show ?thesis by blast
qed

subsection \<open>Resend with capitals in the address\<close>

text \<open>What the program does keep: after a successful resend, exactly one token row
  carries the identifier as it was given, the new one.\<close>

lemma resend_one_token_for_identifier:
  assumes "resendVerification e s em = (Inr tok, s1)"
  shows "filter (\<lambda>r. identifier r = em) (tokens s1) =
           [\<lparr>identifier = em, token = tok, expires = generateTokenExpiry (now e) 24\<rparr>]"
proof -
  have "filter (\<lambda>r. identifier r = em) (filter (\<lambda>r. identifier r \<noteq> em) (tokens s)) = []"
    by (simp add: filter_empty_conv)
  with resend_success [OF assms] show ?thesis by simp
qed

text \<open>
  C3. The claim is that \<open>resendVerification\<close>, for an email in any letter case, deletes
  every outstanding token of the account before it stores one new token, so that at
  most one live token remains and every earlier token is unusable. The program deletes
  and stores under the string it was given, not under the lower-cased email by which it
  found the account. Evaluated on the scenario: after the registration of
  \<open>a@example.com\<close>, the call with \<open>A@Example.com\<close> succeeds and leaves both token rows;
  they refer to the same account, neither is expired at time 3000, and \<open>verifyEmail\<close>
  with the earlier token still succeeds.
\<close>

theorem C3_resend_mixed_case_keeps_old_token:
  "register exHashPassword exEnv0 exDb0 exRaw =
     (Inr \<lparr>user = toUserDTO (exUser1 exHashPassword), verificationToken = exToken1\<rparr>,
      exDb1 exHashPassword) \<and>
   resendVerification exEnv1 (exDb1 exHashPassword) ''A@Example.com'' =
     (Inr exToken2, exDb2 exHashPassword) \<and>
   tokens (exDb2 exHashPassword) = [exRow1, exRow2] \<and>
   toLowerCase (identifier exRow1) = toLowerCase (identifier exRow2) \<and>
   \<not> isTokenExpired (now exEnv2) (expires exRow1) \<and>
   \<not> isTokenExpired (now exEnv2) (expires exRow2) \<and>
   verifyEmail exEnv2 (exDb2 exHashPassword) exToken1 =
     (Inr (toUserDTO (markVerified exEnv2 (exUser1 exHashPassword))), exDb3 exHashPassword)"
  by code_simp

end
